theory Spec2Isabelle
  imports Main "HOL-Library.Extended_Nat"
begin

section \<open>Strings and the path library\<close>

text \<open>
  A JavaScript string is a sequence of UTF-16 code units. It is modelled as a \<open>string\<close>;
  a \<open>char\<close> stands for one code unit below 256, so file names and file contents made of
  code units from 0 to 255 are covered exactly, and \<open>length\<close> counts code units.
\<close>

definition toLowerChar :: "char \<Rightarrow> char" where
  \<comment> \<open>\<open>String.prototype.toLowerCase\<close> on one code unit below 256: A-Z, and the
      upper-case letters 192 to 222 without the multiplication sign 215, move up by 32.\<close>
  "toLowerChar c =
     (let n = of_char c :: nat
      in if (65 \<le> n \<and> n \<le> 90) \<or> (192 \<le> n \<and> n \<le> 222 \<and> n \<noteq> 215)
         then char_of (n + 32) else c)"

definition toLowerCase :: "string \<Rightarrow> string" where
  "toLowerCase s = map toLowerChar s"

definition extname :: "string \<Rightarrow> string" where
  \<comment> \<open>\<open>path.extname\<close> of the platform library (POSIX): in the last path component
      (trailing separators ignored), the text from the last dot on; empty when there is no
      dot, when the last dot is the first character of the component, or when the
      component is \<open>..\<close>.\<close>
  "extname p =
     (let base = rev (takeWhile (\<lambda>c. c \<noteq> CHR ''/'') (dropWhile (\<lambda>c. c = CHR ''/'') (rev p)));
          ext = takeWhile (\<lambda>c. c \<noteq> CHR ''.'') (rev base);
          stem = drop (Suc (length ext)) (rev base)
      in if CHR ''.'' \<notin> set base \<or> stem = [] \<or> base = ''..'' then []
         else CHR ''.'' # rev ext)"

fun splitSlash :: "string \<Rightarrow> string list" where
  \<comment> \<open>\<open>s.split('/')\<close>\<close>
  "splitSlash [] = [[]]"
| "splitSlash (c # cs) =
     (if c = CHR ''/'' then [] # splitSlash cs
      else (case splitSlash cs of [] \<Rightarrow> [[c]] | w # ws \<Rightarrow> (c # w) # ws))"

fun joinSlash :: "string list \<Rightarrow> string" where
  "joinSlash [] = []"
| "joinSlash [w] = w"
| "joinSlash (w # ws) = w @ CHR ''/'' # joinSlash ws"

fun normalizeSegments :: "bool \<Rightarrow> string list \<Rightarrow> string list \<Rightarrow> string list" where
  \<comment> \<open>the segment walk of \<open>path.normalize\<close>: empty and \<open>.\<close> segments vanish, \<open>..\<close> removes
      the segment before it, or stays when there is none and the path is relative\<close>
  "normalizeSegments allowAboveRoot res [] = res"
| "normalizeSegments allowAboveRoot res (seg # segs) =
     (if seg = [] \<or> seg = ''.'' then normalizeSegments allowAboveRoot res segs
      else if seg = ''..'' then
        (if res \<noteq> [] \<and> last res \<noteq> ''..'' then normalizeSegments allowAboveRoot (butlast res) segs
         else if allowAboveRoot then normalizeSegments allowAboveRoot (res @ [seg]) segs
         else normalizeSegments allowAboveRoot res segs)
      else normalizeSegments allowAboveRoot (res @ [seg]) segs)"

definition normalize :: "string \<Rightarrow> string" where
  \<comment> \<open>\<open>path.normalize\<close> (POSIX)\<close>
  "normalize p =
     (if p = [] then ''.''
      else
        let isAbsolute = (hd p = CHR ''/'');
            trailingSeparator = (last p = CHR ''/'');
            q = joinSlash (normalizeSegments (\<not> isAbsolute) [] (splitSlash p))
        in if q = [] then (if isAbsolute then ''/'' else if trailingSeparator then ''./'' else ''.'')
           else (if isAbsolute then ''/'' else []) @ q @ (if trailingSeparator then ''/'' else []))"

definition path_join :: "string \<Rightarrow> string \<Rightarrow> string" where
  \<comment> \<open>\<open>path.join(a, b)\<close> (POSIX): the non-empty arguments, joined by a separator and normalised\<close>
  "path_join a b =
     (if a = [] \<and> b = [] then ''.''
      else if a = [] then normalize b
      else if b = [] then normalize a
      else normalize (a @ CHR ''/'' # b))"

section \<open>The file system seen by a scan\<close>

text \<open>
  An error thrown by the file system carries a \<open>code\<close>. A directory entry, as
  \<open>fs.readdir(dir, {withFileTypes: true})\<close> returns it, has a name and a type; the model
  attaches to a regular file what \<open>fs.stat\<close> answers for it (an error or its size in
  bytes), and to a directory what \<open>fs.readdir\<close> answers for it (an error or its entries).
  An entry that is neither a directory nor a regular file (a symbolic link, a socket) is
  \<open>OtherEnt\<close>.

  Records keep the field names of the source; where two kinds of object share a field
  name (\<open>path\<close>, \<open>name\<close>, \<open>todos\<close>), each record puts a prefix before it.
\<close>

datatype error = Error (code: string)

datatype dirent =
    FileEnt string "error + nat"
  | DirEnt string "error + dirent list"
  | OtherEnt string

record file_entry =
  fe_path :: string
  fe_name :: string
  fe_size :: nat
  fe_extension :: string

record scan_result =
  files :: "file_entry list"
  directories :: "string list"
  totalSize :: nat

record options =
  excludeDirs :: "string list"
  maxDepth :: enat
  currentDepth :: nat

definition default_options :: options where
  "default_options =
     \<lparr>excludeDirs = [''node_modules'', ''.git'', ''dist'', ''build'', ''.next'', ''coverage''],
      maxDepth = \<infinity>, currentDepth = 0\<rparr>"

definition empty_results :: scan_result where
  "empty_results = \<lparr>files = [], directories = [], totalSize = 0\<rparr>"

definition on_error :: "error \<Rightarrow> scan_result \<Rightarrow> error + scan_result" where
  \<comment> \<open>the \<open>catch\<close> block of \<open>scanDirectory\<close>: rethrow unless the code is a permission code;
      after a swallowed error the function returns the results gathered so far\<close>
  "on_error err results =
     (if code err \<noteq> ''EACCES'' \<and> code err \<noteq> ''EPERM'' then Inl err else Inr results)"

section \<open>File scanner: \<open>scanDirectory\<close>\<close>

text \<open>
  \<open>scanDirectory opts dirPath listing\<close> is the call \<open>scanDirectory(dirPath, opts)\<close> on a
  directory for which \<open>fs.readdir\<close> answers \<open>listing\<close>; \<open>Inl\<close> is a thrown error.
  \<open>scanEntries\<close> is the \<open>for\<close> loop over the entries: it returns the results gathered and,
  when an iteration threw, the error.
\<close>

function (sequential) scanDirectory :: "options \<Rightarrow> string \<Rightarrow> error + dirent list \<Rightarrow> error + scan_result"
and scanEntries :: "options \<Rightarrow> string \<Rightarrow> dirent list \<Rightarrow> scan_result \<Rightarrow> error option \<times> scan_result"
where
  "scanDirectory opts dirPath (Inl err) = on_error err empty_results"
| "scanDirectory opts dirPath (Inr entries) =
     (case scanEntries opts dirPath entries empty_results of
        (None, results) \<Rightarrow> Inr results
      | (Some err, results) \<Rightarrow> on_error err results)"
| "scanEntries opts dirPath [] results = (None, results)"
| "scanEntries opts dirPath (DirEnt name sub # rest) results =
     (if name \<in> set (excludeDirs opts) then scanEntries opts dirPath rest results
      else
        let fullPath = path_join dirPath name;
            results1 = results\<lparr>directories := directories results @ [fullPath]\<rparr>
        in if enat (currentDepth opts) < maxDepth opts then
             (case scanDirectory (opts\<lparr>currentDepth := currentDepth opts + 1\<rparr>) fullPath sub of
                Inl err \<Rightarrow> (Some err, results1)
              | Inr subResults \<Rightarrow>
                  scanEntries opts dirPath rest
                    (results1\<lparr>files := files results1 @ files subResults,
                              directories := directories results1 @ directories subResults,
                              totalSize := totalSize results1 + totalSize subResults\<rparr>))
           else scanEntries opts dirPath rest results1)"
| "scanEntries opts dirPath (FileEnt name st # rest) results =
     (case st of
        Inl err \<Rightarrow> scanEntries opts dirPath rest results
      | Inr sz \<Rightarrow>
          scanEntries opts dirPath rest
            (results\<lparr>files := files results @
                        [\<lparr>fe_path = path_join dirPath name, fe_name = name, fe_size = sz,
                          fe_extension = extname name\<rparr>],
                     totalSize := totalSize results + sz\<rparr>))"
| "scanEntries opts dirPath (OtherEnt name # rest) results = scanEntries opts dirPath rest results"
  by pat_completeness auto
termination
  by (relation "measure (\<lambda>x. case x of
          Inl (opts, dirPath, listing) \<Rightarrow> size_sum (\<lambda>_. 0) (size_list size) listing
        | Inr (opts, dirPath, entries, results) \<Rightarrow> size_list size entries)") auto

section \<open>Regular expressions of the comment scanner\<close>

text \<open>
  The three patterns of \<open>scanForTodos\<close> are disjunctions of sequences of quantified
  single-character atoms; a capture group encloses one quantified atom. The matcher below
  is the backtracking matcher of the language restricted to that shape: alternatives are
  tried in order, a greedy quantifier tries the longest run first and gives characters
  back one at a time, a lazy quantifier tries the shortest run first.
\<close>

datatype cclass =
    Lit char  \<comment> \<open>a pattern character, compared under the \<open>i\<close> flag\<close>
  | Space     \<comment> \<open>\<open>\s\<close>\<close>
  | Dot       \<comment> \<open>\<open>.\<close>\<close>

datatype quant =
    One       \<comment> \<open>no quantifier\<close>
  | Opt       \<comment> \<open>\<open>?\<close>\<close>
  | Star      \<comment> \<open>\<open>*\<close>\<close>
  | Plus      \<comment> \<open>\<open>+\<close>\<close>
  | LazyPlus  \<comment> \<open>\<open>+?\<close>\<close>

datatype rterm = Term quant cclass "nat option"
  \<comment> \<open>a quantified atom; \<open>Some k\<close> when capture group \<open>k\<close> encloses it\<close>

type_synonym alternative = "rterm list"
type_synonym regex = "alternative list"

definition isSpace :: "char \<Rightarrow> bool" where
  \<comment> \<open>white space and line terminators below 256: TAB, LF, VT, FF, CR, SP, NBSP\<close>
  "isSpace c = (of_char c \<in> {9, 10, 11, 12, 13, 32, 160 :: nat})"

definition isLineTerminator :: "char \<Rightarrow> bool" where
  "isLineTerminator c = (of_char c \<in> {10, 13 :: nat})"

definition canonicalize :: "char \<Rightarrow> nat" where
  \<comment> \<open>the code unit of the upper-case form, as the \<open>i\<close> flag compares characters:
      a-z and 224 to 254 without the division sign 247 move down by 32, 255 maps to 376
      and the micro sign 181 to 924\<close>
  "canonicalize c =
     (let n = of_char c :: nat
      in if (97 \<le> n \<and> n \<le> 122) \<or> (224 \<le> n \<and> n \<le> 254 \<and> n \<noteq> 247) then n - 32
         else if n = 255 then 376
         else if n = 181 then 924
         else n)"

fun inClass :: "cclass \<Rightarrow> char \<Rightarrow> bool" where
  "inClass (Lit a) c = (canonicalize c = canonicalize a)"
| "inClass Space c = isSpace c"
| "inClass Dot c = (\<not> isLineTerminator c)"

fun counts :: "quant \<Rightarrow> nat \<Rightarrow> nat list" where
  \<comment> \<open>the repetition counts a quantifier tries, in order, when \<open>n\<close> characters of the
      class lie ahead\<close>
  "counts One n = (if 1 \<le> n then [1] else [])"
| "counts Opt n = (if 1 \<le> n then [1, 0] else [0])"
| "counts Star n = rev [0..<Suc n]"
| "counts Plus n = rev [1..<Suc n]"
| "counts LazyPlus n = [1..<Suc n]"

fun firstSome :: "'a option list \<Rightarrow> 'a option" where
  "firstSome [] = None"
| "firstSome (Some x # xs) = Some x"
| "firstSome (None # xs) = firstSome xs"

fun capture :: "nat option \<Rightarrow> string \<Rightarrow> string option list \<Rightarrow> string option list" where
  "capture None text groups = groups"
| "capture (Some k) text groups = groups[k := Some text]"

fun matchTerms :: "alternative \<Rightarrow> string \<Rightarrow> string option list \<Rightarrow> (string option list \<times> string) option" where
  \<comment> \<open>match a sequence at the start of \<open>s\<close>: the groups and the rest of the input\<close>
  "matchTerms [] s groups = Some (groups, s)"
| "matchTerms (Term q c g # ts) s groups =
     firstSome (map (\<lambda>j. matchTerms ts (drop j s) (capture g (take j s) groups))
                    (counts q (length (takeWhile (inClass c) s))))"

definition matchAt :: "regex \<Rightarrow> string \<Rightarrow> (string option list \<times> string) option" where
  \<comment> \<open>match the disjunction at the start of \<open>s\<close>; element 0 of the groups is the matched
      text, elements 1 to 3 are the capture groups (\<open>None\<close> is \<open>undefined\<close>)\<close>
  "matchAt re s =
     (case firstSome (map (\<lambda>alt. matchTerms alt s [None, None, None, None]) re) of
        None \<Rightarrow> None
      | Some (groups, rest) \<Rightarrow> Some (groups[0 := Some (take (length s - length rest) s)], rest))"

record match =
  m_index :: nat
  m_groups :: "string option list"

fun search :: "regex \<Rightarrow> string \<Rightarrow> nat \<Rightarrow> (match \<times> string) option" where
  \<comment> \<open>one \<open>exec\<close> of a global pattern: the first position from \<open>lastIndex = i\<close> on where it
      matches; \<open>s\<close> is the input from \<open>i\<close> on\<close>
  "search re s i =
     (case matchAt re s of
        Some (groups, rest) \<Rightarrow> Some (\<lparr>m_index = i, m_groups = groups\<rparr>, rest)
      | None \<Rightarrow> (case s of [] \<Rightarrow> None | c # t \<Rightarrow> search re t (Suc i)))"

declare search.simps [simp del]

lemma firstSome_in: "firstSome xs = Some y \<Longrightarrow> Some y \<in> set xs"
  by (induction xs rule: firstSome.induct) auto

lemma matchTerms_rest: "matchTerms ts s groups = Some (groups', rest) \<Longrightarrow> \<exists>pre. s = pre @ rest"
proof (induction ts arbitrary: s groups)
  case Nil
  then show ?case by simp
next
  case (Cons t ts)
  obtain q c g where t: "t = Term q c g" by (cases t)
  from Cons.prems t obtain j where "matchTerms ts (drop j s) (capture g (take j s) groups) = Some (groups', rest)"
    by (auto dest!: firstSome_in)
  from Cons.IH[OF this] obtain pre where "drop j s = pre @ rest" ..
  then have "s = (take j s @ pre) @ rest"
    by (metis append_assoc append_take_drop_id)
  then show ?case ..
qed

lemma matchAt_rest: "matchAt re s = Some (groups, rest) \<Longrightarrow> \<exists>pre. s = pre @ rest"
proof -
  assume "matchAt re s = Some (groups, rest)"
  then obtain g0 where "firstSome (map (\<lambda>alt. matchTerms alt s [None, None, None, None]) re) = Some (g0, rest)"
    by (auto simp: matchAt_def split: option.splits)
  then obtain alt where "matchTerms alt s [None, None, None, None] = Some (g0, rest)"
    by (auto dest!: firstSome_in)
  then show ?thesis by (rule matchTerms_rest)
qed

lemma search_rest: "search re s i = Some (m, rest) \<Longrightarrow> length rest \<le> length s"
proof (induction re s i rule: search.induct)
  case (1 re s i)
  show ?case
  proof (cases "matchAt re s")
    case None
    show ?thesis
    proof (cases s)
      case Nil
      with None "1.prems" show ?thesis by (simp add: search.simps)
    next
      case (Cons c t)
      with None "1.prems" have "search re t (Suc i) = Some (m, rest)"
        by (simp add: search.simps)
      from "1.IH"[OF None Cons this] Cons show ?thesis by simp
    qed
  next
    case (Some a)
    with "1.prems" show ?thesis by (cases a) (auto simp: search.simps dest!: matchAt_rest)
  qed
qed

function matchAllFrom :: "regex \<Rightarrow> string \<Rightarrow> nat \<Rightarrow> match list" where
  \<comment> \<open>\<open>content.matchAll(re)\<close> from \<open>lastIndex = i\<close> on: after a match the search resumes
      at its end, one position further when the match was empty\<close>
  "matchAllFrom re s i =
     (case search re s i of
        None \<Rightarrow> []
      | Some (m, rest) \<Rightarrow>
          m # (if length rest < length s then matchAllFrom re rest (i + (length s - length rest))
               else (case rest of [] \<Rightarrow> []
                     | c # t \<Rightarrow> matchAllFrom re t (Suc (i + (length s - length rest))))))"
  by pat_completeness auto
termination
  by (relation "measure (\<lambda>(re, s, i). length s)") (auto dest!: search_rest)

definition matchAll :: "regex \<Rightarrow> string \<Rightarrow> match list" where
  "matchAll re content = matchAllFrom re content 0"

declare matchAllFrom.simps [simp del]

section \<open>Comment scanner: \<open>scanForTodos\<close>\<close>

definition lit :: "char \<Rightarrow> rterm" where
  "lit c = Term One (Lit c) None"

definition tagPattern :: "string \<Rightarrow> regex" where
  \<comment> \<open>\<open>/\/\/\s*KW:?\s*(.+)|\/\*\s*KW:?\s*(.+?)\s*\*\/|#\s*KW:?\s*(.+)/gi\<close>\<close>
  "tagPattern kw =
     [ [lit CHR ''/'', lit CHR ''/'', Term Star Space None] @ map lit kw @
       [Term Opt (Lit CHR '':'') None, Term Star Space None, Term Plus Dot (Some 1)],
       [lit CHR ''/'', lit CHR ''*'', Term Star Space None] @ map lit kw @
       [Term Opt (Lit CHR '':'') None, Term Star Space None, Term LazyPlus Dot (Some 2),
        Term Star Space None, lit CHR ''*'', lit CHR ''/''],
       [lit CHR ''#'', Term Star Space None] @ map lit kw @
       [Term Opt (Lit CHR '':'') None, Term Star Space None, Term Plus Dot (Some 3)] ]"

definition patterns_TODO :: regex where "patterns_TODO = tagPattern ''TODO''"
definition patterns_FIXME :: regex where "patterns_FIXME = tagPattern ''FIXME''"
definition patterns_HACK :: regex where "patterns_HACK = tagPattern ''HACK''"

definition scanExtensions :: "string list" where
  "scanExtensions =
     [''.js'', ''.jsx'', ''.ts'', ''.tsx'', ''.py'', ''.java'', ''.cpp'', ''.c'', ''.cs'',
      ''.go'', ''.rs'', ''.php'', ''.rb'', ''.swift'', ''.kt'', ''.html'', ''.css'', ''.scss'']"

definition trim :: "string \<Rightarrow> string" where
  \<comment> \<open>\<open>String.prototype.trim\<close>: white space and line terminators off both ends\<close>
  "trim s = rev (dropWhile isSpace (rev (dropWhile isSpace s)))"

definition js_or :: "string option \<Rightarrow> string \<Rightarrow> string" where
  \<comment> \<open>\<open>a || b\<close> for \<open>a\<close> a string or \<open>undefined\<close>: \<open>undefined\<close> and the empty string are
      falsy\<close>
  "js_or a b = (case a of None \<Rightarrow> b | Some x \<Rightarrow> if x = [] then b else x)"

definition group :: "match \<Rightarrow> nat \<Rightarrow> string option" where
  \<comment> \<open>\<open>match[k]\<close>\<close>
  "group m k = (if k < length (m_groups m) then m_groups m ! k else None)"



definition commentOf :: "match \<Rightarrow> string" where
  \<comment> \<open>\<open>(match[1] || match[2] || match[3] || '').trim()\<close>\<close>
  "commentOf m = trim (js_or (group m 1) (js_or (group m 2) (js_or (group m 3) [])))"

record todo_match =
  tm_file :: string
  tm_comment :: string

record file_results =
  fr_path :: string
  fr_name :: string
  fr_todos :: "string list"
  fr_fixmes :: "string list"
  fr_hacks :: "string list"

record todo_results =
  todos :: "todo_match list"
  fixmes :: "todo_match list"
  hacks :: "todo_match list"
  totalCount :: nat
  fileCount :: nat
  fileDetails :: "file_results list"

definition initial_results :: todo_results where
  "initial_results =
     \<lparr>todos = [], fixmes = [], hacks = [], totalCount = 0, fileCount = 0, fileDetails = []\<rparr>"

text \<open>
  The three \<open>for (const match of ...)\<close> loops of one file. Each threads the per-file
  record, the aggregate and the flag \<open>hasComments\<close>.
\<close>

fun pushTodos :: "string \<Rightarrow> match list \<Rightarrow> file_results \<times> todo_results \<times> bool \<Rightarrow> file_results \<times> todo_results \<times> bool" where
  "pushTodos name [] st = st"
| "pushTodos name (m # ms) (fileResults, results, hasComments) =
     (let comment = commentOf m
      in pushTodos name ms
           (fileResults\<lparr>fr_todos := fr_todos fileResults @ [comment]\<rparr>,
            results\<lparr>todos := todos results @ [\<lparr>tm_file = name, tm_comment = comment\<rparr>]\<rparr>,
            True))"

fun pushFixmes :: "string \<Rightarrow> match list \<Rightarrow> file_results \<times> todo_results \<times> bool \<Rightarrow> file_results \<times> todo_results \<times> bool" where
  "pushFixmes name [] st = st"
| "pushFixmes name (m # ms) (fileResults, results, hasComments) =
     (let comment = commentOf m
      in pushFixmes name ms
           (fileResults\<lparr>fr_fixmes := fr_fixmes fileResults @ [comment]\<rparr>,
            results\<lparr>fixmes := fixmes results @ [\<lparr>tm_file = name, tm_comment = comment\<rparr>]\<rparr>,
            True))"

fun pushHacks :: "string \<Rightarrow> match list \<Rightarrow> file_results \<times> todo_results \<times> bool \<Rightarrow> file_results \<times> todo_results \<times> bool" where
  "pushHacks name [] st = st"
| "pushHacks name (m # ms) (fileResults, results, hasComments) =
     (let comment = commentOf m
      in pushHacks name ms
           (fileResults\<lparr>fr_hacks := fr_hacks fileResults @ [comment]\<rparr>,
            results\<lparr>hacks := hacks results @ [\<lparr>tm_file = name, tm_comment = comment\<rparr>]\<rparr>,
            True))"

definition scanContent :: "file_entry \<Rightarrow> string \<Rightarrow> todo_results \<Rightarrow> todo_results" where
  \<comment> \<open>the body of the \<open>try\<close> block once \<open>fs.readFile\<close> has returned \<open>content\<close>\<close>
  "scanContent file content results =
     (let fileResults = \<lparr>fr_path = fe_path file, fr_name = fe_name file,
                          fr_todos = [], fr_fixmes = [], fr_hacks = []\<rparr>;
          st1 = pushTodos (fe_name file) (matchAll patterns_TODO content) (fileResults, results, False);
          st2 = pushFixmes (fe_name file) (matchAll patterns_FIXME content) st1;
          (fileResults3, results3, hasComments) = pushHacks (fe_name file) (matchAll patterns_HACK content) st2
      in if hasComments
         then results3\<lparr>fileDetails := fileDetails results3 @ [fileResults3],
                       fileCount := fileCount results3 + 1\<rparr>
         else results3)"

text \<open>
  The loop over the files. \<open>readFile\<close> is the file system at the time of the scan: what
  \<open>fs.readFile(path, 'utf-8')\<close> answers, an error or the content. The second component of
  the state lists the paths handed to \<open>fs.readFile\<close>, in order.
\<close>

fun scanFiles :: "(string \<Rightarrow> error + string) \<Rightarrow> file_entry list \<Rightarrow> todo_results \<times> string list \<Rightarrow> todo_results \<times> string list" where
  "scanFiles readFile [] st = st"
| "scanFiles readFile (file # rest) (results, opened) =
     (let ext = toLowerCase (extname (fe_name file))
      in if ext \<notin> set scanExtensions then scanFiles readFile rest (results, opened)
         else
           (case readFile (fe_path file) of
              Inl err \<Rightarrow> scanFiles readFile rest (results, opened @ [fe_path file])
            | Inr content \<Rightarrow>
                scanFiles readFile rest (scanContent file content results, opened @ [fe_path file])))"

definition scanForTodos :: "(string \<Rightarrow> error + string) \<Rightarrow> file_entry list \<Rightarrow> todo_results" where
  "scanForTodos readFile fileList =
     (let results = fst (scanFiles readFile fileList (initial_results, []))
      in results\<lparr>totalCount := length (todos results) + length (fixmes results) + length (hacks results)\<rparr>)"

definition filesOpened :: "(string \<Rightarrow> error + string) \<Rightarrow> file_entry list \<Rightarrow> string list" where
  \<comment> \<open>the paths \<open>scanForTodos\<close> hands to \<open>fs.readFile\<close>\<close>
  "filesOpened readFile fileList = snd (scanFiles readFile fileList (initial_results, []))"

section \<open>\<open>getFilesWithMostTodos\<close>\<close>

record file_count =
  fc_name :: string
  fc_path :: string
  fc_count :: nat
  fc_todos :: nat
  fc_fixmes :: nat
  fc_hacks :: nat

text \<open>
  \<open>fileCounts\<close> is an object used as a dictionary from file names to records. An object
  lists its string keys in the order of their first assignment, and assigning to a key
  that is present replaces the value where it stands. (Keys that are array indices or
  \<open>__proto__\<close> behave differently; a name in \<open>fileDetails\<close> carries one of the scanned
  extensions, so it is neither.)
\<close>

fun obj_set :: "(string \<times> 'v) list \<Rightarrow> string \<Rightarrow> 'v \<Rightarrow> (string \<times> 'v) list" where
  \<comment> \<open>\<open>obj[key] = v\<close>\<close>
  "obj_set [] key v = [(key, v)]"
| "obj_set ((k, w) # kvs) key v = (if k = key then (k, v) # kvs else (k, w) # obj_set kvs key v)"

definition obj_values :: "(string \<times> 'v) list \<Rightarrow> 'v list" where
  \<comment> \<open>\<open>Object.values(obj)\<close>\<close>
  "obj_values obj = map snd obj"

definition fileCountEntry :: "file_results \<Rightarrow> file_count" where
  \<comment> \<open>the record built for one element of \<open>fileDetails\<close>\<close>
  "fileCountEntry file =
     (let count = length (fr_todos file) + length (fr_fixmes file) + length (fr_hacks file)
      in \<lparr>fc_name = fr_name file, fc_path = fr_path file, fc_count = count,
          fc_todos = length (fr_todos file), fc_fixmes = length (fr_fixmes file),
          fc_hacks = length (fr_hacks file)\<rparr>)"

fun countFiles :: "file_results list \<Rightarrow> (string \<times> file_count) list \<Rightarrow> (string \<times> file_count) list" where
  \<comment> \<open>the \<open>forEach\<close> over \<open>fileDetails\<close>: \<open>fileCounts[file.name] = {...}\<close>\<close>
  "countFiles [] fileCounts = fileCounts"
| "countFiles (file # rest) fileCounts =
     countFiles rest (obj_set fileCounts (fr_name file) (fileCountEntry file))"

definition getFilesWithMostTodos :: "todo_results \<Rightarrow> nat \<Rightarrow> file_count list" where
  \<comment> \<open>\<open>sort((a, b) => b.count - a.count)\<close> is a stable sort by descending count, that is
      by ascending \<open>- count\<close>; \<open>slice(0, limit)\<close> keeps the first \<open>limit\<close> entries\<close>
  "getFilesWithMostTodos todoResults limit =
     take limit (sort_key (\<lambda>e. - int (fc_count e)) (obj_values (countFiles (fileDetails todoResults) [])))"

section \<open>Reference notions used to state the properties\<close>

definition kept :: "string list \<Rightarrow> dirent \<Rightarrow> bool" where
  \<comment> \<open>the entry is not a directory named in \<open>E\<close>\<close>
  "kept E e = (case e of DirEnt n sub \<Rightarrow> n \<notin> set E | _ \<Rightarrow> True)"

primrec without_excluded :: "string list \<Rightarrow> dirent \<Rightarrow> dirent" where
  \<comment> \<open>the tree below an entry with every directory named in \<open>E\<close> removed, at every depth\<close>
  "without_excluded E (FileEnt n st) = FileEnt n st"
| "without_excluded E (DirEnt n sub) =
     DirEnt n (map_sum id (filter (kept E)) (map_sum id (map (without_excluded E)) sub))"
| "without_excluded E (OtherEnt n) = OtherEnt n"


fun immediate_files :: "string \<Rightarrow> dirent list \<Rightarrow> file_entry list" where
  \<comment> \<open>one record per regular file of a listing whose \<open>stat\<close> succeeds, in listing order\<close>
  "immediate_files dirPath [] = []"
| "immediate_files dirPath (FileEnt name (Inr sz) # es) =
     \<lparr>fe_path = path_join dirPath name, fe_name = name, fe_size = sz, fe_extension = extname name\<rparr>
       # immediate_files dirPath es"
| "immediate_files dirPath (e # es) = immediate_files dirPath es"

fun immediate_dirs :: "string list \<Rightarrow> string \<Rightarrow> dirent list \<Rightarrow> string list" where
  \<comment> \<open>the paths of the directories of a listing that are not named in \<open>E\<close>, in listing order\<close>
  "immediate_dirs E dirPath [] = []"
| "immediate_dirs E dirPath (DirEnt name sub # es) =
     (if name \<in> set E then immediate_dirs E dirPath es
      else path_join dirPath name # immediate_dirs E dirPath es)"
| "immediate_dirs E dirPath (e # es) = immediate_dirs E dirPath es"










section \<open>Properties of the file scanner\<close>

subsection \<open>Auxiliary facts\<close>

lemma on_error_Inr: "on_error e r = Inr r' \<Longrightarrow> r' = r"
  by (auto simp: on_error_def split: if_splits)

lemma scan_invariant:
  assumes empty: "\<And>p. I p empty_results"
    and fstep: "\<And>p r n sz. I p r \<Longrightarrow>
        I p (r\<lparr>files := files r @ [\<lparr>fe_path = path_join p n, fe_name = n, fe_size = sz,
                                      fe_extension = extname n\<rparr>],
               totalSize := totalSize r + sz\<rparr>)"
    and dstep: "\<And>p r n. n \<notin> set E \<Longrightarrow> I p r \<Longrightarrow>
        I p (r\<lparr>directories := directories r @ [path_join p n]\<rparr>)"
    and merge: "\<And>p r n s. n \<notin> set E \<Longrightarrow> I p r \<Longrightarrow> I (path_join p n) s \<Longrightarrow>
        I p (r\<lparr>files := files r @ files s, directories := directories r @ directories s,
               totalSize := totalSize r + totalSize s\<rparr>)"
  shows "excludeDirs opts = E \<Longrightarrow> scanDirectory opts p l = Inr r \<Longrightarrow> I p r"
    and "excludeDirs opts = E \<Longrightarrow> I p r0 \<Longrightarrow> I p (snd (scanEntries opts p es r0))"
proof (induction opts p l and opts p es r0 arbitrary: r rule: scanDirectory_scanEntries.induct)
  case (1 opts dirPath err)
  then show ?case using empty by (auto dest!: on_error_Inr)
next
  case (2 opts dirPath entries)
  from "2.IH"[OF "2.prems"(1) empty] "2.prems"(2) show ?case
    by (auto split: prod.splits option.splits dest!: on_error_Inr)
next
  case (3 opts dirPath results)
  then show ?case by simp
next
  case (4 opts dirPath name sub rest results)
  show ?case
  proof (cases "name \<in> set (excludeDirs opts)")
    case True
    with 4 show ?thesis by simp
  next
    case False
    let ?full = "path_join dirPath name"
    let ?r1 = "results\<lparr>directories := directories results @ [?full]\<rparr>"
    have r1: "I dirPath ?r1" using dstep False "4.prems" by simp
    show ?thesis
    proof (cases "enat (currentDepth opts) < maxDepth opts")
      case deep: True
      show ?thesis
      proof (cases "scanDirectory (opts\<lparr>currentDepth := currentDepth opts + 1\<rparr>) ?full sub")
        case (Inl e)
        with False deep r1 show ?thesis by (simp add: Let_def)
      next
        case (Inr s)
        have "I ?full s" using "4.IH"(2)[OF False refl refl deep _ Inr] "4.prems"(1) by simp
        then have "I dirPath (?r1\<lparr>files := files ?r1 @ files s,
            directories := directories ?r1 @ directories s,
            totalSize := totalSize ?r1 + totalSize s\<rparr>)"
          using merge[OF _ r1, of name s] False "4.prems"(1) by simp
        from "4.IH"(3)[OF False refl refl deep Inr "4.prems"(1) this] False deep Inr show ?thesis
          by (simp add: Let_def)
      qed
    next
      case shallow: False
      from "4.IH"(4)[OF False refl refl shallow "4.prems"(1) r1] False shallow show ?thesis
        by (simp add: Let_def)
    qed
  qed
next
  case (5 opts dirPath name st rest results)
  show ?case
  proof (cases st)
    case (Inl e)
    with 5 show ?thesis by simp
  next
    case (Inr sz)
    from "5.IH"(2)[OF Inr "5.prems"(1) fstep[OF "5.prems"(2)]] Inr show ?thesis by simp
  qed
next
  case (6 opts dirPath name rest results)
  then show ?case by simp
qed


lemma kept_without [simp]: "kept E (without_excluded E e) = kept E e"
  by (cases e) (auto simp: kept_def)




lemma scanDirectory_error_code:
  "scanDirectory opts p l = Inl e \<Longrightarrow> code e \<noteq> ''EACCES'' \<and> code e \<noteq> ''EPERM''"
  by (cases l) (auto simp: on_error_def split: prod.splits option.splits if_splits)

lemma scanEntries_error_code:
  "fst (scanEntries opts p es r) = Some e \<Longrightarrow> code e \<noteq> ''EACCES'' \<and> code e \<noteq> ''EPERM''"
proof (induction es arbitrary: r)
  case Nil
  then show ?case by simp
next
  case (Cons a es)
  show ?case
  proof (cases a)
    case (FileEnt n st)
    with Cons show ?thesis by (cases st) auto
  next
    case (DirEnt n sub)
    with Cons show ?thesis
      by (auto simp: Let_def split: if_splits sum.splits dest: scanDirectory_error_code)
  next
    case (OtherEnt n)
    with Cons show ?thesis by auto
  qed
qed

lemma scanDirectory_Inr_iff:
  "scanDirectory opts p (Inr es) = Inr r \<longleftrightarrow> scanEntries opts p es empty_results = (None, r)"
proof (cases "scanEntries opts p es empty_results")
  case (Pair eo r')
  show ?thesis
  proof (cases eo)
    case None
    with Pair show ?thesis by simp
  next
    case (Some e)
    with Pair have "fst (scanEntries opts p es empty_results) = Some e" by simp
    from scanEntries_error_code[OF this] Pair Some show ?thesis
      by (simp add: on_error_def)
  qed
qed

lemma scanEntries_append:
  "scanEntries opts p (pre @ es) r =
     (case scanEntries opts p pre r of
        (None, r') \<Rightarrow> scanEntries opts p es r'
      | (Some e, r') \<Rightarrow> (Some e, r'))"
proof (induction pre arbitrary: r)
  case Nil
  then show ?case by simp
next
  case (Cons a pre)
  show ?case
  proof (cases a)
    case (FileEnt n st)
    with Cons show ?thesis by (cases st) auto
  next
    case (DirEnt n sub)
    with Cons show ?thesis
      by (auto simp: Let_def split: sum.splits)
  next
    case (OtherEnt n)
    with Cons show ?thesis by auto
  qed
qed

lemma scanEntries_depth0:
  "maxDepth opts = 0 \<Longrightarrow>
   scanEntries opts p es r =
     (None, r\<lparr>files := files r @ immediate_files p es,
              directories := directories r @ immediate_dirs (excludeDirs opts) p es,
              totalSize := totalSize r + sum_list (map fe_size (immediate_files p es))\<rparr>)"
proof (induction es arbitrary: r)
  case Nil
  then show ?case by simp
next
  case (Cons a es)
  show ?case
  proof (cases a)
    case (FileEnt n st)
    with Cons show ?thesis by (cases st) auto
  next
    case (DirEnt n sub)
    with Cons show ?thesis by (auto simp: Let_def)
  next
    case (OtherEnt n)
    with Cons show ?thesis by auto
  qed
qed

lemma extname_shape:
  "extname n = [] \<or> (hd (extname n) = CHR ''.'' \<and> CHR ''.'' \<notin> set (tl (extname n)))"
proof -
  have "CHR ''.'' \<notin> set (takeWhile (\<lambda>c. c \<noteq> CHR ''.'') xs)" for xs :: string
    by (auto dest: set_takeWhileD)
  then show ?thesis by (simp add: extname_def Let_def)
qed

lemma dropWhile_none: "\<forall>x\<in>set xs. \<not> P x \<Longrightarrow> dropWhile P xs = xs"
  by (cases xs) auto

lemma extname_suffix:
  assumes "CHR ''/'' \<notin> set n"
  shows "\<exists>stem. n = stem @ extname n"
proof (cases "extname n = []")
  case True
  then show ?thesis by simp
next
  case False
  have d: "dropWhile (\<lambda>c. c = CHR ''/'') (rev n) = rev n"
    using assms by (intro dropWhile_none) auto
  have tk: "takeWhile (\<lambda>c. c \<noteq> CHR ''/'') (rev n) = rev n"
    using assms by (auto simp: takeWhile_eq_all_conv)
  have b: "rev (takeWhile (\<lambda>c. c \<noteq> CHR ''/'') (dropWhile (\<lambda>c. c = CHR ''/'') (rev n))) = n"
    by (simp only: d tk rev_rev_ident)
  let ?ext = "takeWhile (\<lambda>c. c \<noteq> CHR ''.'') (rev n)"
  let ?rest = "dropWhile (\<lambda>c. c \<noteq> CHR ''.'') (rev n)"
  from False have e: "extname n = CHR ''.'' # rev ?ext" and dot: "CHR ''.'' \<in> set n"
    unfolding extname_def Let_def b by (simp_all split: if_splits)
  from dot have ne: "?rest \<noteq> []" by (simp add: dropWhile_eq_Nil_conv)
  then have "hd ?rest = CHR ''.''" using hd_dropWhile[OF ne] by simp
  with ne obtain t where t: "?rest = CHR ''.'' # t" by (cases ?rest) auto
  have "rev n = ?ext @ ?rest" by simp
  then have "rev n = ?ext @ CHR ''.'' # t" using t by simp
  then have "rev (rev n) = rev (?ext @ CHR ''.'' # t)" by simp
  then have "n = rev t @ CHR ''.'' # rev ?ext" by simp
  with e show ?thesis by auto
qed

lemma files_kept:
  "f \<in> set (files r0) \<Longrightarrow> f \<in> set (files (snd (scanEntries opts p es r0)))"
proof (induction es arbitrary: r0)
  case Nil
  then show ?case by simp
next
  case (Cons a es)
  show ?case
  proof (cases a)
    case (FileEnt n st)
    with Cons show ?thesis by (cases st) auto
  next
    case (DirEnt n sub)
    with Cons show ?thesis by (auto simp: Let_def split: sum.splits)
  next
    case (OtherEnt n)
    with Cons show ?thesis by auto
  qed
qed

lemma file_recorded:
  "FileEnt n (Inr sz) \<in> set es \<Longrightarrow> fst (scanEntries opts p es r0) = None \<Longrightarrow>
   \<lparr>fe_path = path_join p n, fe_name = n, fe_size = sz, fe_extension = extname n\<rparr>
     \<in> set (files (snd (scanEntries opts p es r0)))"
proof (induction es arbitrary: r0)
  case Nil
  then show ?case by simp
next
  case (Cons a es)
  show ?case
  proof (cases a)
    case (FileEnt m st)
    show ?thesis
    proof (cases "a = FileEnt n (Inr sz)")
      case True
      then show ?thesis by (simp add: files_kept)
    next
      case False
      with Cons FileEnt show ?thesis by (cases st) auto
    qed
  next
    case (DirEnt m sub)
    with Cons show ?thesis by (auto simp: Let_def split: sum.splits if_splits)
  next
    case (OtherEnt m)
    with Cons show ?thesis by auto
  qed
qed

subsection \<open>The total size\<close>



subsection \<open>Excluded directories\<close>



subsection \<open>Errors while listing\<close>

text \<open>
  Claim C6, as stated, fails: a \<open>NotFound\<close> error (\<open>ENOENT\<close>) while listing a subdirectory is
  not treated as an access error. With \<open>EACCES\<close> on \<open>sub\<close> the scan goes on and returns the
  sibling file; with \<open>ENOENT\<close> on \<open>sub\<close> the whole call fails with that error.
\<close>

theorem notfound_on_subdirectory_aborts:
  "scanDirectory default_options ''/proj''
     (Inr [DirEnt ''sub'' (Inl (Error ''EACCES'')), FileEnt ''a.js'' (Inr 1)])
   = Inr \<lparr>files = [\<lparr>fe_path = ''/proj/a.js'', fe_name = ''a.js'', fe_size = 1, fe_extension = ''.js''\<rparr>],
          directories = [''/proj/sub''], totalSize = 1\<rparr>
   \<and> scanDirectory default_options ''/proj''
     (Inr [DirEnt ''sub'' (Inl (Error ''ENOENT'')), FileEnt ''a.js'' (Inr 1)])
   = Inl (Error ''ENOENT'')"
  by code_simp

text \<open>
  Claim C6, amended. A listing error with code \<open>EACCES\<close> or \<open>EPERM\<close> is swallowed: on the
  directory the call was made for the result is empty, and a subdirectory whose listing
  fails so is scanned as if it were empty. A listing error with any other code, \<open>ENOENT\<close>
  included, is returned to the caller; and when the scan of a subdirectory that is neither
  excluded nor too deep fails, the scan of its parent fails with the same error, whatever
  follows it in the listing.
\<close>

theorem listing_errors:
  "(scanDirectory opts p (Inl e) =
      (if code e = ''EACCES'' \<or> code e = ''EPERM'' then Inr empty_results else Inl e)) \<and>
   (code e = ''EACCES'' \<or> code e = ''EPERM'' \<longrightarrow>
      scanEntries opts p (DirEnt name (Inl e) # rest) r =
      scanEntries opts p (DirEnt name (Inr []) # rest) r) \<and>
   (name \<notin> set (excludeDirs opts) \<and> enat (currentDepth opts) < maxDepth opts \<and>
    fst (scanEntries opts p pre empty_results) = None \<and>
    scanDirectory (opts\<lparr>currentDepth := currentDepth opts + 1\<rparr>) (path_join p name) sub = Inl e'
    \<longrightarrow> scanDirectory opts p (Inr (pre @ DirEnt name sub # rest)) = Inl e')"
proof (intro conjI impI)
  show "scanDirectory opts p (Inl e) =
      (if code e = ''EACCES'' \<or> code e = ''EPERM'' then Inr empty_results else Inl e)"
    by (auto simp: on_error_def)
next
  assume "code e = ''EACCES'' \<or> code e = ''EPERM''"
  then show "scanEntries opts p (DirEnt name (Inl e) # rest) r =
      scanEntries opts p (DirEnt name (Inr []) # rest) r"
    by (auto simp: on_error_def Let_def empty_results_def)
next
  assume a: "name \<notin> set (excludeDirs opts) \<and> enat (currentDepth opts) < maxDepth opts \<and>
    fst (scanEntries opts p pre empty_results) = None \<and>
    scanDirectory (opts\<lparr>currentDepth := currentDepth opts + 1\<rparr>) (path_join p name) sub = Inl e'"
  then obtain r' where pre: "scanEntries opts p pre empty_results = (None, r')"
    by (cases "scanEntries opts p pre empty_results") auto
  from a have "code e' \<noteq> ''EACCES'' \<and> code e' \<noteq> ''EPERM''"
    by (auto dest: scanDirectory_error_code)
  with a pre show "scanDirectory opts p (Inr (pre @ DirEnt name sub # rest)) = Inl e'"
    by (simp add: scanEntries_append Let_def on_error_def)
qed


theorem listing_errors_witness:
  "scanDirectory default_options ''/proj'' (Inl (Error ''EPERM'')) = Inr empty_results \<and>
   scanDirectory default_options ''/proj'' (Inl (Error ''ENOENT'')) = Inl (Error ''ENOENT'') \<and>
   scanEntries default_options ''/proj'' [DirEnt ''sub'' (Inl (Error ''EACCES'')), FileEnt ''a.js'' (Inr 1)] empty_results =
     scanEntries default_options ''/proj'' [DirEnt ''sub'' (Inr []), FileEnt ''a.js'' (Inr 1)] empty_results \<and>
   scanDirectory default_options ''/proj''
     (Inr ([FileEnt ''a.js'' (Inr 1)] @
           DirEnt ''src'' (Inr [DirEnt ''deep'' (Inl (Error ''ENOENT''))]) # [FileEnt ''b.js'' (Inr 2)]))
     = Inl (Error ''ENOENT'')"
proof -
  have h1: "''src'' \<notin> set (excludeDirs default_options) \<and>
      enat (currentDepth default_options) < maxDepth default_options \<and>
      fst (scanEntries default_options ''/proj'' [FileEnt ''a.js'' (Inr 1)] empty_results) = None \<and>
      scanDirectory (default_options\<lparr>currentDepth := currentDepth default_options + 1\<rparr>)
        (path_join ''/proj'' ''src'') (Inr [DirEnt ''deep'' (Inl (Error ''ENOENT''))]) = Inl (Error ''ENOENT'')"
    by code_simp
  have h2: "code (Error ''EACCES'') = ''EACCES'' \<or> code (Error ''EACCES'') = ''EPERM''" by simp
  note t1 = listing_errors[where opts = default_options and p = "''/proj''" and e = "Error ''EPERM''"]
  note t2 = listing_errors[where opts = default_options and p = "''/proj''" and e = "Error ''ENOENT''"]
  note t3 = listing_errors[where opts = default_options and p = "''/proj''" and e = "Error ''EACCES''"
      and name = "''sub''" and rest = "[FileEnt ''a.js'' (Inr 1)]" and r = empty_results]
  note t4 = listing_errors[where opts = default_options and p = "''/proj''" and name = "''src''"
      and pre = "[FileEnt ''a.js'' (Inr 1)]" and sub = "Inr [DirEnt ''deep'' (Inl (Error ''ENOENT''))]"
      and e' = "Error ''ENOENT''" and rest = "[FileEnt ''b.js'' (Inr 2)]"]
  from t1 have c1: "scanDirectory default_options ''/proj'' (Inl (Error ''EPERM'')) = Inr empty_results"
    by simp
  from t2 have c2: "scanDirectory default_options ''/proj'' (Inl (Error ''ENOENT'')) = Inl (Error ''ENOENT'')"
    by simp
  from t3 h2 have c3: "scanEntries default_options ''/proj'' [DirEnt ''sub'' (Inl (Error ''EACCES'')), FileEnt ''a.js'' (Inr 1)] empty_results =
     scanEntries default_options ''/proj'' [DirEnt ''sub'' (Inr []), FileEnt ''a.js'' (Inr 1)] empty_results"
    by blast
  from t4 h1 have c4: "scanDirectory default_options ''/proj''
     (Inr ([FileEnt ''a.js'' (Inr 1)] @
           DirEnt ''src'' (Inr [DirEnt ''deep'' (Inl (Error ''ENOENT''))]) # [FileEnt ''b.js'' (Inr 2)]))
     = Inl (Error ''ENOENT'')"
    by blast
  from c1 c2 c3 c4 show ?thesis by blast
qed

subsection \<open>Depth limit zero\<close>

text \<open>
  Claim C7, as stated, fails: with \<open>maxDepth = 0\<close> the root's regular file \<open>a.js\<close>, whose
  \<open>stat\<close> fails, is an immediate regular-file entry of the root and is not in \<open>files\<close>.
\<close>

theorem depth0_unreadable_file_missing:
  "scanDirectory (default_options\<lparr>maxDepth := 0\<rparr>) ''/proj''
     (Inr [FileEnt ''a.js'' (Inl (Error ''EACCES'')), FileEnt ''b.js'' (Inr 2)])
   = Inr \<lparr>files = [\<lparr>fe_path = ''/proj/b.js'', fe_name = ''b.js'', fe_size = 2, fe_extension = ''.js''\<rparr>],
          directories = [], totalSize = 2\<rparr>"
  by code_simp

text \<open>
  Claim C7, amended. With \<open>maxDepth = 0\<close> a scan of a listed root returns, in listing
  order, exactly one record for each immediate regular file of the root whose \<open>stat\<close>
  succeeds, and the paths of the root's immediate directories that are not excluded;
  nothing below a subdirectory contributes, since the result does not depend on what the
  subdirectories contain, and no subdirectory's listing can make the scan fail.
\<close>

theorem depth0_immediate_entries:
  assumes "maxDepth opts = 0"
  shows "scanDirectory opts p (Inr es) =
     Inr \<lparr>files = immediate_files p es,
          directories = immediate_dirs (excludeDirs opts) p es,
          totalSize = sum_list (map fe_size (immediate_files p es))\<rparr>"
  using assms by (simp add: scanEntries_depth0 empty_results_def)

theorem depth0_immediate_entries_witness:
  "maxDepth (default_options\<lparr>maxDepth := 0\<rparr>) = 0 \<and>
   scanDirectory (default_options\<lparr>maxDepth := 0\<rparr>) ''/proj''
     (Inr [FileEnt ''a.js'' (Inr 4), DirEnt ''src'' (Inr [FileEnt ''deep.js'' (Inr 9)]),
           DirEnt ''dist'' (Inr []), DirEnt ''gone'' (Inl (Error ''ENOENT''))])
   = Inr \<lparr>files = [\<lparr>fe_path = ''/proj/a.js'', fe_name = ''a.js'', fe_size = 4, fe_extension = ''.js''\<rparr>],
          directories = [''/proj/src'', ''/proj/gone''], totalSize = 4\<rparr>"
proof -
  have h: "maxDepth (default_options\<lparr>maxDepth := 0\<rparr>) = 0" by simp
  have e: "Inr \<lparr>files = immediate_files ''/proj''
              [FileEnt ''a.js'' (Inr 4), DirEnt ''src'' (Inr [FileEnt ''deep.js'' (Inr 9)]),
               DirEnt ''dist'' (Inr []), DirEnt ''gone'' (Inl (Error ''ENOENT''))],
          directories = immediate_dirs (excludeDirs (default_options\<lparr>maxDepth := 0\<rparr>)) ''/proj''
              [FileEnt ''a.js'' (Inr 4), DirEnt ''src'' (Inr [FileEnt ''deep.js'' (Inr 9)]),
               DirEnt ''dist'' (Inr []), DirEnt ''gone'' (Inl (Error ''ENOENT''))],
          totalSize = sum_list (map fe_size (immediate_files ''/proj''
              [FileEnt ''a.js'' (Inr 4), DirEnt ''src'' (Inr [FileEnt ''deep.js'' (Inr 9)]),
               DirEnt ''dist'' (Inr []), DirEnt ''gone'' (Inl (Error ''ENOENT''))]))\<rparr>
     = (Inr \<lparr>files = [\<lparr>fe_path = ''/proj/a.js'', fe_name = ''a.js'', fe_size = 4, fe_extension = ''.js''\<rparr>],
          directories = [''/proj/src'', ''/proj/gone''], totalSize = 4\<rparr> :: error + scan_result)"
    by code_simp
  note r = trans[OF depth0_immediate_entries[OF h] e]
  from h r show ?thesis by (rule conjI)
qed

subsection \<open>The extension field\<close>

text \<open>
  Claim C8, as stated, fails: the extension is not lower-cased. The file \<open>A.JS\<close> is recorded
  with the extension \<open>.JS\<close>, which differs from its lower-case form \<open>.js\<close>.
\<close>

theorem extension_keeps_case:
  "scanDirectory default_options ''/proj'' (Inr [FileEnt ''A.JS'' (Inr 1)])
   = Inr \<lparr>files = [\<lparr>fe_path = ''/proj/A.JS'', fe_name = ''A.JS'', fe_size = 1, fe_extension = ''.JS''\<rparr>],
          directories = [], totalSize = 1\<rparr>
   \<and> ''.JS'' \<noteq> toLowerCase ''.JS'' \<and> toLowerCase ''.JS'' = ''.js''"
  by code_simp

text \<open>
  Claim C8, amended. For every record a scan produces, the \<open>extension\<close> field is
  \<open>path.extname\<close> of the file name, with the case of the name kept: it is empty or starts
  with the only dot it contains, and for a name without a path separator it is a suffix of
  the name.
\<close>

theorem extension_is_extname:
  assumes "scanDirectory opts rootPath listing = Inr r"
  shows "\<forall>f \<in> set (files r).
           fe_extension f = extname (fe_name f) \<and>
           (fe_extension f = [] \<or>
            (hd (fe_extension f) = CHR ''.'' \<and> CHR ''.'' \<notin> set (tl (fe_extension f)))) \<and>
           (CHR ''/'' \<notin> set (fe_name f) \<longrightarrow> (\<exists>stem. fe_name f = stem @ fe_extension f))"
proof -
  have "\<forall>f \<in> set (files r). fe_extension f = extname (fe_name f)"
    by (rule scan_invariant(1)[where I = "\<lambda>p r. \<forall>f \<in> set (files r). fe_extension f = extname (fe_name f)"
          and E = "excludeDirs opts", OF _ _ _ _ refl assms])
       (auto simp: empty_results_def)
  then show ?thesis
    using extname_shape extname_suffix by auto
qed

theorem extension_is_extname_witness:
  "scanDirectory default_options ''/proj''
     (Inr [FileEnt ''Main.Test.JS'' (Inr 1), FileEnt ''.gitignore'' (Inr 2), FileEnt ''Makefile'' (Inr 3)])
   = Inr \<lparr>files = [\<lparr>fe_path = ''/proj/Main.Test.JS'', fe_name = ''Main.Test.JS'', fe_size = 1, fe_extension = ''.JS''\<rparr>,
                  \<lparr>fe_path = ''/proj/.gitignore'', fe_name = ''.gitignore'', fe_size = 2, fe_extension = []\<rparr>,
                  \<lparr>fe_path = ''/proj/Makefile'', fe_name = ''Makefile'', fe_size = 3, fe_extension = []\<rparr>],
          directories = [], totalSize = 6\<rparr>
   \<and> ''.JS'' = extname ''Main.Test.JS'' \<and> [] = extname ''.gitignore'' \<and> [] = extname ''Makefile''"
proof -
  have h: "scanDirectory default_options ''/proj''
     (Inr [FileEnt ''Main.Test.JS'' (Inr 1), FileEnt ''.gitignore'' (Inr 2), FileEnt ''Makefile'' (Inr 3)])
   = Inr \<lparr>files = [\<lparr>fe_path = ''/proj/Main.Test.JS'', fe_name = ''Main.Test.JS'', fe_size = 1, fe_extension = ''.JS''\<rparr>,
                  \<lparr>fe_path = ''/proj/.gitignore'', fe_name = ''.gitignore'', fe_size = 2, fe_extension = []\<rparr>,
                  \<lparr>fe_path = ''/proj/Makefile'', fe_name = ''Makefile'', fe_size = 3, fe_extension = []\<rparr>],
          directories = [], totalSize = 6\<rparr>"
    by code_simp
  from extension_is_extname[OF h] h show ?thesis by simp
qed

subsection \<open>Files named like excluded directories\<close>

text \<open>
  Claim C10. The exclusion list applies to directories only. For a name in the exclusion
  list, a directory entry of that name is skipped by the loop, whereas a regular file of
  that name whose \<open>stat\<close> answers a size is appended to \<open>files\<close> and its size is added to
  \<open>totalSize\<close>; and whenever such a file is among the entries of the scanned directory, its
  record is in the \<open>files\<close> of the result.
\<close>

theorem excluded_name_file_is_recorded:
  assumes "name \<in> set (excludeDirs opts)"
  shows "scanEntries opts p (DirEnt name sub # rest) r = scanEntries opts p rest r \<and>
         scanEntries opts p (FileEnt name (Inr sz) # rest) r =
           scanEntries opts p rest
             (r\<lparr>files := files r @ [\<lparr>fe_path = path_join p name, fe_name = name, fe_size = sz,
                                       fe_extension = extname name\<rparr>],
                totalSize := totalSize r + sz\<rparr>) \<and>
         (FileEnt name (Inr sz) \<in> set es \<and> scanDirectory opts p (Inr es) = Inr r' \<longrightarrow>
            \<lparr>fe_path = path_join p name, fe_name = name, fe_size = sz, fe_extension = extname name\<rparr>
              \<in> set (files r'))"
proof (intro conjI impI)
  show "scanEntries opts p (DirEnt name sub # rest) r = scanEntries opts p rest r"
    using assms by simp
next
  show "scanEntries opts p (FileEnt name (Inr sz) # rest) r =
           scanEntries opts p rest
             (r\<lparr>files := files r @ [\<lparr>fe_path = path_join p name, fe_name = name, fe_size = sz,
                                       fe_extension = extname name\<rparr>],
                totalSize := totalSize r + sz\<rparr>)"
    by simp
next
  assume a: "FileEnt name (Inr sz) \<in> set es \<and> scanDirectory opts p (Inr es) = Inr r'"
  then have s: "scanEntries opts p es empty_results = (None, r')"
    using scanDirectory_Inr_iff by blast
  from a s file_recorded[of name sz es opts p empty_results]
  show "\<lparr>fe_path = path_join p name, fe_name = name, fe_size = sz, fe_extension = extname name\<rparr>
              \<in> set (files r')"
    by simp
qed

theorem excluded_name_file_is_recorded_witness:
  "''node_modules'' \<in> set (excludeDirs default_options) \<and>
   scanDirectory default_options ''/proj''
     (Inr [DirEnt ''node_modules'' (Inr [FileEnt ''x.js'' (Inr 5)]), FileEnt ''node_modules'' (Inr 3)])
   = Inr \<lparr>files = [\<lparr>fe_path = ''/proj/node_modules'', fe_name = ''node_modules'', fe_size = 3, fe_extension = []\<rparr>],
          directories = [], totalSize = 3\<rparr> \<and>
   \<lparr>fe_path = path_join ''/proj'' ''node_modules'', fe_name = ''node_modules'', fe_size = 3,
     fe_extension = extname ''node_modules''\<rparr>
     \<in> set [\<lparr>fe_path = ''/proj/node_modules'', fe_name = ''node_modules'', fe_size = 3, fe_extension = []\<rparr>]"
proof -
  have m: "''node_modules'' \<in> set (excludeDirs default_options)" by code_simp
  have h: "scanDirectory default_options ''/proj''
     (Inr [DirEnt ''node_modules'' (Inr [FileEnt ''x.js'' (Inr 5)]), FileEnt ''node_modules'' (Inr 3)])
   = Inr \<lparr>files = [\<lparr>fe_path = ''/proj/node_modules'', fe_name = ''node_modules'', fe_size = 3, fe_extension = []\<rparr>],
          directories = [], totalSize = 3\<rparr>"
    by code_simp
  have i: "FileEnt ''node_modules'' (Inr 3) \<in> set [DirEnt ''node_modules'' (Inr [FileEnt ''x.js'' (Inr 5)]), FileEnt ''node_modules'' (Inr 3)]"
    by simp
  note t = excluded_name_file_is_recorded[OF m, where p = "''/proj''" and sz = 3
      and es = "[DirEnt ''node_modules'' (Inr [FileEnt ''x.js'' (Inr 5)]), FileEnt ''node_modules'' (Inr 3)]"
      and r' = "\<lparr>files = [\<lparr>fe_path = ''/proj/node_modules'', fe_name = ''node_modules'', fe_size = 3, fe_extension = []\<rparr>],
          directories = [], totalSize = 3\<rparr>"]
  from t h i have "\<lparr>fe_path = path_join ''/proj'' ''node_modules'', fe_name = ''node_modules'', fe_size = 3,
     fe_extension = extname ''node_modules''\<rparr>
     \<in> set (files \<lparr>files = [\<lparr>fe_path = ''/proj/node_modules'', fe_name = ''node_modules'', fe_size = 3, fe_extension = []\<rparr>],
          directories = [], totalSize = 3\<rparr>)"
    by blast
  with m h show ?thesis by simp
qed


section \<open>Properties of the comment scanner\<close>

subsection \<open>The loops of one file\<close>

lemma pushTodos_eq:
  "pushTodos name ms (fr, res, h) =
     (fr\<lparr>fr_todos := fr_todos fr @ map commentOf ms\<rparr>,
      res\<lparr>todos := todos res @ map (\<lambda>m. \<lparr>tm_file = name, tm_comment = commentOf m\<rparr>) ms\<rparr>,
      h \<or> ms \<noteq> [])"
  by (induction ms arbitrary: fr res h) (simp_all add: Let_def)

lemma pushFixmes_eq:
  "pushFixmes name ms (fr, res, h) =
     (fr\<lparr>fr_fixmes := fr_fixmes fr @ map commentOf ms\<rparr>,
      res\<lparr>fixmes := fixmes res @ map (\<lambda>m. \<lparr>tm_file = name, tm_comment = commentOf m\<rparr>) ms\<rparr>,
      h \<or> ms \<noteq> [])"
  by (induction ms arbitrary: fr res h) (simp_all add: Let_def)

lemma pushHacks_eq:
  "pushHacks name ms (fr, res, h) =
     (fr\<lparr>fr_hacks := fr_hacks fr @ map commentOf ms\<rparr>,
      res\<lparr>hacks := hacks res @ map (\<lambda>m. \<lparr>tm_file = name, tm_comment = commentOf m\<rparr>) ms\<rparr>,
      h \<or> ms \<noteq> [])"
  by (induction ms arbitrary: fr res h) (simp_all add: Let_def)

lemma scanContent_eq:
  "scanContent file content res =
     (let T = matchAll patterns_TODO content;
          F = matchAll patterns_FIXME content;
          H = matchAll patterns_HACK content;
          mk = (\<lambda>m. \<lparr>tm_file = fe_name file, tm_comment = commentOf m\<rparr>);
          res3 = res\<lparr>todos := todos res @ map mk T, fixmes := fixmes res @ map mk F,
                     hacks := hacks res @ map mk H\<rparr>
      in if T \<noteq> [] \<or> F \<noteq> [] \<or> H \<noteq> []
         then res3\<lparr>fileDetails := fileDetails res @
                       [\<lparr>fr_path = fe_path file, fr_name = fe_name file,
                         fr_todos = map commentOf T, fr_fixmes = map commentOf F,
                         fr_hacks = map commentOf H\<rparr>],
                    fileCount := fileCount res + 1\<rparr>
         else res3)"
  by (simp add: scanContent_def pushTodos_eq pushFixmes_eq pushHacks_eq Let_def)


subsection \<open>Counts and file details\<close>

lemma scanContent_details:
  assumes "fileCount res = length (fileDetails res)"
    and "\<forall>d \<in> set (fileDetails res). fr_todos d \<noteq> [] \<or> fr_fixmes d \<noteq> [] \<or> fr_hacks d \<noteq> []"
  shows "fileCount (scanContent file content res) = length (fileDetails (scanContent file content res)) \<and>
         (\<forall>d \<in> set (fileDetails (scanContent file content res)).
            fr_todos d \<noteq> [] \<or> fr_fixmes d \<noteq> [] \<or> fr_hacks d \<noteq> [])"
  using assms by (auto simp: scanContent_eq Let_def)

lemma scanFiles_details:
  assumes "fileCount res = length (fileDetails res)"
    and "\<forall>d \<in> set (fileDetails res). fr_todos d \<noteq> [] \<or> fr_fixmes d \<noteq> [] \<or> fr_hacks d \<noteq> []"
  shows "fileCount (fst (scanFiles readFile fl (res, opened))) =
           length (fileDetails (fst (scanFiles readFile fl (res, opened)))) \<and>
         (\<forall>d \<in> set (fileDetails (fst (scanFiles readFile fl (res, opened)))).
            fr_todos d \<noteq> [] \<or> fr_fixmes d \<noteq> [] \<or> fr_hacks d \<noteq> [])"
  using assms
proof (induction fl arbitrary: res opened)
  case Nil
  then show ?case by simp
next
  case (Cons f fl)
  show ?case
  proof (cases "toLowerCase (extname (fe_name f)) \<in> set scanExtensions")
    case False
    with Cons.IH[OF Cons.prems] show ?thesis by (simp add: Let_def)
  next
    case True
    show ?thesis
    proof (cases "readFile (fe_path f)")
      case (Inl e)
      with True Cons.IH[OF Cons.prems] show ?thesis by (simp add: Let_def)
    next
      case (Inr content)
      from scanContent_details[OF Cons.prems, of f content]
      have "fileCount (scanContent f content res) = length (fileDetails (scanContent f content res))"
        "\<forall>d \<in> set (fileDetails (scanContent f content res)).
            fr_todos d \<noteq> [] \<or> fr_fixmes d \<noteq> [] \<or> fr_hacks d \<noteq> []"
        by simp_all
      from Cons.IH[OF this] True Inr show ?thesis by (simp add: Let_def)
    qed
  qed
qed

text \<open>
  Claim C1. For every result \<open>scanForTodos\<close> returns, on any list of files and any state of
  the file system: \<open>totalCount\<close> is the sum of the lengths of \<open>todos\<close>, \<open>fixmes\<close> and \<open>hacks\<close>;
  \<open>fileCount\<close> is the length of \<open>fileDetails\<close>; and every element of \<open>fileDetails\<close> has at
  least one non-empty sequence among its \<open>todos\<close>, \<open>fixmes\<close> and \<open>hacks\<close>.
\<close>

theorem scanForTodos_counts:
  "totalCount (scanForTodos readFile fl) =
     length (todos (scanForTodos readFile fl)) + length (fixmes (scanForTodos readFile fl)) +
     length (hacks (scanForTodos readFile fl)) \<and>
   fileCount (scanForTodos readFile fl) = length (fileDetails (scanForTodos readFile fl)) \<and>
   (\<forall>d \<in> set (fileDetails (scanForTodos readFile fl)).
      fr_todos d \<noteq> [] \<or> fr_fixmes d \<noteq> [] \<or> fr_hacks d \<noteq> [])"
proof -
  have "fileCount initial_results = length (fileDetails initial_results)"
    "\<forall>d \<in> set (fileDetails initial_results). fr_todos d \<noteq> [] \<or> fr_fixmes d \<noteq> [] \<or> fr_hacks d \<noteq> []"
    by (simp_all add: initial_results_def)
  from scanFiles_details[OF this, of readFile fl "[]"] show ?thesis
    by (simp add: scanForTodos_def Let_def)
qed

theorem scanForTodos_counts_witness:
  "scanForTodos
     (\<lambda>p. if p = ''/p/a.js'' then Inr ''// TODO: fix this''
          else if p = ''/p/b.py'' then Inr ''# FIXME: broken''
          else if p = ''/p/e.js'' then Inr []
          else Inl (Error ''ENOENT''))
     [\<lparr>fe_path = ''/p/a.js'', fe_name = ''a.js'', fe_size = 17, fe_extension = ''.js''\<rparr>,
      \<lparr>fe_path = ''/p/e.js'', fe_name = ''e.js'', fe_size = 0, fe_extension = ''.js''\<rparr>,
      \<lparr>fe_path = ''/p/b.py'', fe_name = ''b.py'', fe_size = 15, fe_extension = ''.py''\<rparr>]
   = \<lparr>todos = [\<lparr>tm_file = ''a.js'', tm_comment = ''fix this''\<rparr>],
      fixmes = [\<lparr>tm_file = ''b.py'', tm_comment = ''broken''\<rparr>], hacks = [],
      totalCount = 2, fileCount = 2,
      fileDetails =
        [\<lparr>fr_path = ''/p/a.js'', fr_name = ''a.js'', fr_todos = [''fix this''], fr_fixmes = [], fr_hacks = []\<rparr>,
         \<lparr>fr_path = ''/p/b.py'', fr_name = ''b.py'', fr_todos = [], fr_fixmes = [''broken''], fr_hacks = []\<rparr>]\<rparr>
   \<and> (2::nat) = length [\<lparr>tm_file = ''a.js'', tm_comment = ''fix this''\<rparr>] +
                 length [\<lparr>tm_file = ''b.py'', tm_comment = ''broken''\<rparr>] + length ([] :: todo_match list)
   \<and> (2::nat) = length
        [\<lparr>fr_path = ''/p/a.js'', fr_name = ''a.js'', fr_todos = [''fix this''], fr_fixmes = [], fr_hacks = []\<rparr>,
         \<lparr>fr_path = ''/p/b.py'', fr_name = ''b.py'', fr_todos = [], fr_fixmes = [''broken''], fr_hacks = []\<rparr>]
   \<and> fr_todos \<lparr>fr_path = ''/p/a.js'', fr_name = ''a.js'', fr_todos = [''fix this''], fr_fixmes = [], fr_hacks = []\<rparr> \<noteq> []
   \<and> fr_fixmes \<lparr>fr_path = ''/p/b.py'', fr_name = ''b.py'', fr_todos = [], fr_fixmes = [''broken''], fr_hacks = []\<rparr> \<noteq> []"
proof -
  let ?rd = "\<lambda>p. if p = ''/p/a.js'' then Inr ''// TODO: fix this''
          else if p = ''/p/b.py'' then Inr ''# FIXME: broken''
          else if p = ''/p/e.js'' then Inr []
          else Inl (Error ''ENOENT'')"
  let ?fl = "[\<lparr>fe_path = ''/p/a.js'', fe_name = ''a.js'', fe_size = 17, fe_extension = ''.js''\<rparr>,
      \<lparr>fe_path = ''/p/e.js'', fe_name = ''e.js'', fe_size = 0, fe_extension = ''.js''\<rparr>,
      \<lparr>fe_path = ''/p/b.py'', fe_name = ''b.py'', fe_size = 15, fe_extension = ''.py''\<rparr>]"
  have h: "scanForTodos ?rd ?fl
   = \<lparr>todos = [\<lparr>tm_file = ''a.js'', tm_comment = ''fix this''\<rparr>],
      fixmes = [\<lparr>tm_file = ''b.py'', tm_comment = ''broken''\<rparr>], hacks = [],
      totalCount = 2, fileCount = 2,
      fileDetails =
        [\<lparr>fr_path = ''/p/a.js'', fr_name = ''a.js'', fr_todos = [''fix this''], fr_fixmes = [], fr_hacks = []\<rparr>,
         \<lparr>fr_path = ''/p/b.py'', fr_name = ''b.py'', fr_todos = [], fr_fixmes = [''broken''], fr_hacks = []\<rparr>]\<rparr>"
    by code_simp
  from scanForTodos_counts[of ?rd ?fl] show ?thesis unfolding h by simp
qed

subsection \<open>Which files are read\<close>

lemma opened_eq:
  "snd (scanFiles readFile fl (res, opened)) =
     opened @ map fe_path (filter (\<lambda>f. toLowerCase (extname (fe_name f)) \<in> set scanExtensions) fl)"
  by (induction fl arbitrary: res opened) (auto simp: Let_def split: sum.splits)

lemma skip_eq:
  "fst (scanFiles readFile
          (filter (\<lambda>f. toLowerCase (extname (fe_name f)) \<in> set scanExtensions \<and>
                        \<not> isl (readFile (fe_path f))) fl) (res, o1)) =
   fst (scanFiles readFile fl (res, o2))"
  by (induction fl arbitrary: res o1 o2) (auto simp: Let_def split: sum.splits)

lemma scanExtensions_lower: "a \<in> set scanExtensions \<Longrightarrow> toLowerCase a = a"
proof -
  have "list_all (\<lambda>a. toLowerCase a = a) scanExtensions" by code_simp
  then show "a \<in> set scanExtensions \<Longrightarrow> toLowerCase a = a" by (simp add: list_all_iff)
qed

text \<open>
  Claim C9. \<open>scanForTodos\<close> hands to \<open>fs.readFile\<close> exactly the paths of the input files
  whose extension, lower-cased, is in the list of scanned extensions, in input order; that
  test is a comparison without regard to case against the list; and the result is the one
  obtained from the input with every file removed that has an unrecognised extension or
  whose read fails: such a file leaves no match, no \<open>fileDetails\<close> element and no error, and
  the files after it are processed as usual.
\<close>

theorem scanForTodos_reads:
  "filesOpened readFile fl =
     map fe_path (filter (\<lambda>f. toLowerCase (extname (fe_name f)) \<in> set scanExtensions) fl) \<and>
   (toLowerCase (extname name) \<in> set scanExtensions \<longleftrightarrow>
      (\<exists>a \<in> set scanExtensions. toLowerCase (extname name) = toLowerCase a)) \<and>
   scanForTodos readFile fl =
     scanForTodos readFile
       (filter (\<lambda>f. toLowerCase (extname (fe_name f)) \<in> set scanExtensions \<and>
                     \<not> isl (readFile (fe_path f))) fl)"
proof (intro conjI)
  show "filesOpened readFile fl =
     map fe_path (filter (\<lambda>f. toLowerCase (extname (fe_name f)) \<in> set scanExtensions) fl)"
    using opened_eq[of readFile fl initial_results "[]"] by (simp add: filesOpened_def)
next
  show "toLowerCase (extname name) \<in> set scanExtensions \<longleftrightarrow>
      (\<exists>a \<in> set scanExtensions. toLowerCase (extname name) = toLowerCase a)"
    using scanExtensions_lower by force
next
  show "scanForTodos readFile fl =
     scanForTodos readFile
       (filter (\<lambda>f. toLowerCase (extname (fe_name f)) \<in> set scanExtensions \<and>
                     \<not> isl (readFile (fe_path f))) fl)"
    using skip_eq[of readFile fl initial_results "[]" "[]"] by (simp add: scanForTodos_def)
qed

theorem scanForTodos_reads_witness:
  "filesOpened
     (\<lambda>p. if p = ''/p/A.JS'' then Inr ''// TODO: fix this''
          else if p = ''/p/c.bin'' then Inr ''// TODO: x''
          else Inl (Error ''EACCES''))
     [\<lparr>fe_path = ''/p/c.bin'', fe_name = ''c.bin'', fe_size = 10, fe_extension = ''.bin''\<rparr>,
      \<lparr>fe_path = ''/p/d.ts'', fe_name = ''d.ts'', fe_size = 5, fe_extension = ''.ts''\<rparr>,
      \<lparr>fe_path = ''/p/A.JS'', fe_name = ''A.JS'', fe_size = 17, fe_extension = ''.JS''\<rparr>]
   = [''/p/d.ts'', ''/p/A.JS''] \<and>
   scanForTodos
     (\<lambda>p. if p = ''/p/A.JS'' then Inr ''// TODO: fix this''
          else if p = ''/p/c.bin'' then Inr ''// TODO: x''
          else Inl (Error ''EACCES''))
     [\<lparr>fe_path = ''/p/c.bin'', fe_name = ''c.bin'', fe_size = 10, fe_extension = ''.bin''\<rparr>,
      \<lparr>fe_path = ''/p/d.ts'', fe_name = ''d.ts'', fe_size = 5, fe_extension = ''.ts''\<rparr>,
      \<lparr>fe_path = ''/p/A.JS'', fe_name = ''A.JS'', fe_size = 17, fe_extension = ''.JS''\<rparr>]
   = scanForTodos
     (\<lambda>p. if p = ''/p/A.JS'' then Inr ''// TODO: fix this''
          else if p = ''/p/c.bin'' then Inr ''// TODO: x''
          else Inl (Error ''EACCES''))
     [\<lparr>fe_path = ''/p/A.JS'', fe_name = ''A.JS'', fe_size = 17, fe_extension = ''.JS''\<rparr>]"
proof -
  let ?rd = "\<lambda>p. if p = ''/p/A.JS'' then Inr ''// TODO: fix this''
          else if p = ''/p/c.bin'' then Inr ''// TODO: x''
          else Inl (Error ''EACCES'')"
  let ?fl = "[\<lparr>fe_path = ''/p/c.bin'', fe_name = ''c.bin'', fe_size = 10, fe_extension = ''.bin''\<rparr>,
      \<lparr>fe_path = ''/p/d.ts'', fe_name = ''d.ts'', fe_size = 5, fe_extension = ''.ts''\<rparr>,
      \<lparr>fe_path = ''/p/A.JS'', fe_name = ''A.JS'', fe_size = 17, fe_extension = ''.JS''\<rparr>]"
  have o: "map fe_path (filter (\<lambda>f. toLowerCase (extname (fe_name f)) \<in> set scanExtensions) ?fl)
      = [''/p/d.ts'', ''/p/A.JS'']"
    by code_simp
  have k: "filter (\<lambda>f. toLowerCase (extname (fe_name f)) \<in> set scanExtensions \<and>
                     \<not> isl (?rd (fe_path f))) ?fl
      = [\<lparr>fe_path = ''/p/A.JS'', fe_name = ''A.JS'', fe_size = 17, fe_extension = ''.JS''\<rparr>]"
    by code_simp
  from scanForTodos_reads[of ?rd ?fl] show ?thesis unfolding o k by blast
qed

subsection \<open>The matcher: capture groups\<close>





lemma length_capture [simp]: "length (capture g t groups) = length groups"
  by (cases g) auto


































subsection \<open>What is recorded for one file\<close>



section \<open>Properties of \<open>getFilesWithMostTodos\<close>\<close>

lemma obj_set_fresh: "key \<notin> fst ` set obj \<Longrightarrow> obj_set obj key v = obj @ [(key, v)]"
  by (induction obj) auto

lemma countFiles_distinct:
  "distinct (map fst obj @ map fr_name fs) \<Longrightarrow>
   countFiles fs obj = obj @ map (\<lambda>f. (fr_name f, fileCountEntry f)) fs"
proof (induction fs arbitrary: obj)
  case Nil
  then show ?case by simp
next
  case (Cons f fs)
  from Cons.prems have fresh: "fr_name f \<notin> fst ` set obj" by auto
  from Cons.prems have "distinct (map fst (obj @ [(fr_name f, fileCountEntry f)]) @ map fr_name fs)"
    by auto
  from Cons.IH[OF this] fresh show ?case by (simp add: obj_set_fresh)
qed

text \<open>
  When no two elements of \<open>fileDetails\<close> have the same file name, the function returns the
  first \<open>limit\<close> entries of the stable sort of all files by descending count.
\<close>

lemma getFilesWithMostTodos_distinct_names:
  assumes "distinct (map fr_name (fileDetails r))"
  shows "getFilesWithMostTodos r limit =
           take limit (sort_key (\<lambda>e. - int (fc_count e)) (map fileCountEntry (fileDetails r)))"
  using countFiles_distinct[of "[]" "fileDetails r"] assms
  by (simp add: getFilesWithMostTodos_def obj_values_def comp_def)

lemma getFilesWithMostTodos_length: "length (getFilesWithMostTodos r limit) \<le> limit"
  by (simp add: getFilesWithMostTodos_def)

text \<open>
  Claim C5 does not hold of the code. \<open>fileCounts\<close> is keyed by the base name of the file,
  so of two files with the same name in different directories the later one replaces the
  earlier one. Below, \<open>/p/a/index.js\<close> has three comments and \<open>/p/b/index.js\<close> has one; both
  are in \<open>fileDetails\<close>, and with limit 5 the function returns the single entry of
  \<open>/p/b/index.js\<close> with count 1: the file with the highest count is not considered.
\<close>

theorem same_name_files_collapse:
  "fileDetails
     (scanForTodos
        (\<lambda>p. if p = ''/p/a/index.js'' then Inr ''/* TODO: x */ /* TODO: y */ /* FIXME: z */''
             else if p = ''/p/b/index.js'' then Inr ''// HACK: w''
             else Inl (Error ''ENOENT''))
        [\<lparr>fe_path = ''/p/a/index.js'', fe_name = ''index.js'', fe_size = 41, fe_extension = ''.js''\<rparr>,
         \<lparr>fe_path = ''/p/b/index.js'', fe_name = ''index.js'', fe_size = 10, fe_extension = ''.js''\<rparr>])
   = [\<lparr>fr_path = ''/p/a/index.js'', fr_name = ''index.js'', fr_todos = [''x'', ''y''],
        fr_fixmes = [''z''], fr_hacks = []\<rparr>,
      \<lparr>fr_path = ''/p/b/index.js'', fr_name = ''index.js'', fr_todos = [],
        fr_fixmes = [], fr_hacks = [''w'']\<rparr>] \<and>
   getFilesWithMostTodos
     (scanForTodos
        (\<lambda>p. if p = ''/p/a/index.js'' then Inr ''/* TODO: x */ /* TODO: y */ /* FIXME: z */''
             else if p = ''/p/b/index.js'' then Inr ''// HACK: w''
             else Inl (Error ''ENOENT''))
        [\<lparr>fe_path = ''/p/a/index.js'', fe_name = ''index.js'', fe_size = 41, fe_extension = ''.js''\<rparr>,
         \<lparr>fe_path = ''/p/b/index.js'', fe_name = ''index.js'', fe_size = 10, fe_extension = ''.js''\<rparr>])
     5
   = [\<lparr>fc_name = ''index.js'', fc_path = ''/p/b/index.js'', fc_count = 1,
        fc_todos = 0, fc_fixmes = 0, fc_hacks = 1\<rparr>]"
  by code_simp

end
